theory Spec2Isabelle
  imports Main
begin

section \<open>Configuration (config.ts)\<close>

text \<open>
  \<^verbatim>\<open>appConfig = { ..., offlineQueueKey: "wyrd-ledger-offline-queue", maxQueueSize: 50, maxRetries: 3 }\<close>
\<close>

definition offlineQueueKey :: string where
  "offlineQueueKey = ''wyrd-ledger-offline-queue''"

definition maxQueueSize :: nat where
  "maxQueueSize = 50"

definition maxRetries :: int where
  "maxRetries = 3"

section \<open>Values, errors and the browser's local storage\<close>

text \<open>
  JSON values as the remote documents and the saved collections hold them. Numbers are
  integers here; \<open>NaN\<close> and fractions play no role in the code below.
\<close>

datatype json =
    JNull
  | JBool bool
  | JNum int
  | JStr string
  | JArr "json list"
  | JObj "(string \<times> json) list"

text \<open>JavaScript truthiness of a value that may be \<open>undefined\<close> (\<open>None\<close>).\<close>

fun truthy :: "json option \<Rightarrow> bool" where
  "truthy None = False"
| "truthy (Some JNull) = False"
| "truthy (Some (JBool b)) = b"
| "truthy (Some (JNum n)) = (n \<noteq> 0)"
| "truthy (Some (JStr s)) = (s \<noteq> [])"
| "truthy (Some (JArr xs)) = True"
| "truthy (Some (JObj kvs)) = True"

datatype error =
    SyntaxError
  | QuotaExceededError
  | FirebaseError
  | Error string

text \<open>
  The text held under one local-storage key, by what \<open>JSON.parse\<close> makes of it: the empty
  string (falsy, and not parseable), a string that is not JSON, or the serialisation
  \<open>JSON.stringify v\<close> of a value.
\<close>

datatype 'a stored = EmptyText | Malformed | Stringified 'a

fun JSON_parse :: "'a stored \<Rightarrow> error + 'a" where
  "JSON_parse EmptyText = Inl SyntaxError"
| "JSON_parse Malformed = Inl SyntaxError"
| "JSON_parse (Stringified v) = Inr v"

text \<open>Truthiness of what \<open>getItem\<close> returns: \<open>null\<close> and the empty string are falsy.\<close>

fun truthy_text :: "'a stored option \<Rightarrow> bool" where
  "truthy_text None = False"
| "truthy_text (Some EmptyText) = False"
| "truthy_text (Some Malformed) = True"
| "truthy_text (Some (Stringified v)) = True"

text \<open>Truthiness of an optional string: \<open>undefined\<close> and \<open>""\<close> are falsy.\<close>

fun truthy_string :: "string option \<Rightarrow> bool" where
  "truthy_string None = False"
| "truthy_string (Some s) = (s \<noteq> [])"

section \<open>The offline queue (offlineQueue.ts)\<close>

datatype op_type = Save | Sync

text \<open>
  \<^verbatim>\<open>interface QueuedOperation { id; type: "save" | "sync"; collection?; data; timestamp; retryCount }\<close>
  The fields \<open>id\<close> and \<open>type\<close> carry a prefix, since \<open>id\<close> is the identity function of HOL.
\<close>

record QueuedOperation =
  op_id :: string
  op_type :: op_type
  collection :: "string option"
  data :: json
  timestamp :: int
  retryCount :: int

text \<open>The argument of \<open>queueOperation\<close>: an operation without id, timestamp and retry count.\<close>

record NewOperation =
  new_type :: op_type
  new_collection :: "string option"
  new_data :: json

text \<open>
  Local storage has two regions that the code keeps apart by key: the text under
  \<open>offlineQueueKey\<close>, and the texts under all other keys, which hold JSON values. The
  queue's text is written by this module only, as the serialisation of a
  \<open>QueuedOperation[]\<close>, and \<open>getQueuedOperations\<close> declares that type for what it parses: in
  this record a queue text that parses is the serialisation of a list of operations. What
  the function returns for any other text is the subject of \<open>getQueuedOperations_untyped\<close>
  below.
\<close>

record localStorage =
  offlineQueue :: "QueuedOperation list stored option"
  entries :: "string \<rightharpoonup> json stored"

text \<open>
  \<open>localStorage.setItem\<close> throws when the browser refuses the write (quota exceeded,
  storage disabled). The parameter \<open>accepts\<close> is the browser's decision, taken on the
  storage as it would be after the write.
\<close>

type_synonym browser = "localStorage \<Rightarrow> bool"

definition setItem_queue ::
  "browser \<Rightarrow> QueuedOperation list \<Rightarrow> localStorage \<Rightarrow> error + localStorage" where
  "setItem_queue accepts operations ls =
     (let ls' = ls\<lparr>offlineQueue := Some (Stringified operations)\<rparr>
      in if accepts ls' then Inr ls' else Inl QuotaExceededError)"

definition setItem ::
  "browser \<Rightarrow> string \<Rightarrow> json \<Rightarrow> localStorage \<Rightarrow> error + localStorage" where
  "setItem accepts k v ls =
     (let ls' = ls\<lparr>entries := (entries ls)(k \<mapsto> Stringified v)\<rparr>
      in if accepts ls' then Inr ls' else Inl QuotaExceededError)"

text \<open>
  \<^verbatim>\<open>
  export function getQueuedOperations(): QueuedOperation[] {
    try {
      const stored = localStorage.getItem(appConfig.offlineQueueKey);
      return stored ? JSON.parse(stored) : [];
    } catch (error) { console.error(...); return []; }
  }
  \<close>
  The body of the \<open>try\<close> is \<open>getQueuedOperations_body\<close>; the function itself returns a sum,
  so that an exception leaving it would be a value \<open>Inl\<close>.
\<close>

definition getQueuedOperations_body :: "localStorage \<Rightarrow> error + QueuedOperation list" where
  "getQueuedOperations_body ls =
     (case offlineQueue ls of
        None \<Rightarrow> Inr []
      | Some stored \<Rightarrow> if truthy_text (Some stored) then JSON_parse stored else Inr [])"

definition getQueuedOperations :: "localStorage \<Rightarrow> error + QueuedOperation list" where
  "getQueuedOperations ls =
     (case getQueuedOperations_body ls of
        Inr operations \<Rightarrow> Inr operations
      | Inl e \<Rightarrow> Inr [])"

text \<open>
  \<open>getQueuedOperations\<close> above reads the queue text at the type it declares. As JavaScript
  runs it, on any text that may be stored under the key, \<open>JSON.parse\<close> returns whatever JSON
  value the text denotes and the function returns that value without testing that it is an
  array; this is \<open>getQueuedOperations_untyped\<close>, from the same source lines. The two agree
  on the texts this module writes, which serialise a list of operations (\<open>json_of_queue\<close>):
  \<open>queueOperation\<close> builds each operation as \<open>{ ...op, id, timestamp, retryCount }\<close>.
\<close>

definition getQueuedOperations_untyped_body :: "json stored option \<Rightarrow> error + json" where
  "getQueuedOperations_untyped_body item =
     (case item of
        None \<Rightarrow> Inr (JArr [])
      | Some stored \<Rightarrow> if truthy_text (Some stored) then JSON_parse stored else Inr (JArr []))"

definition getQueuedOperations_untyped :: "json stored option \<Rightarrow> error + json" where
  "getQueuedOperations_untyped item =
     (case getQueuedOperations_untyped_body item of
        Inr parsed \<Rightarrow> Inr parsed
      | Inl e \<Rightarrow> Inr (JArr []))"

fun is_array :: "json \<Rightarrow> bool" where
  "is_array (JArr xs) = True"
| "is_array v = False"

fun json_of_type :: "op_type \<Rightarrow> json" where
  "json_of_type Save = JStr ''save''"
| "json_of_type Sync = JStr ''sync''"

definition json_of_operation :: "QueuedOperation \<Rightarrow> json" where
  "json_of_operation op =
     JObj ([(''type'', json_of_type (op_type op))]
           @ (case collection op of None \<Rightarrow> [] | Some c \<Rightarrow> [(''collection'', JStr c)])
           @ [(''data'', data op), (''id'', JStr (op_id op)),
              (''timestamp'', JNum (timestamp op)), (''retryCount'', JNum (retryCount op))])"

definition json_of_queue :: "QueuedOperation list \<Rightarrow> json" where
  "json_of_queue operations = JArr (map json_of_operation operations)"

text \<open>\<open>operations.shift()\<close>: drops the first element, and does nothing on an empty array.\<close>

fun shift :: "'a list \<Rightarrow> 'a list" where
  "shift [] = []"
| "shift (x # xs) = xs"

definition make_operation :: "string \<Rightarrow> int \<Rightarrow> NewOperation \<Rightarrow> QueuedOperation" where
  "make_operation uuid now op =
     \<lparr>op_id = uuid, op_type = new_type op, collection = new_collection op,
      data = new_data op, timestamp = now, retryCount = 0\<rparr>"

text \<open>
  \<^verbatim>\<open>
  export function queueOperation(op) {
    const operations = getQueuedOperations();
    if (operations.length >= appConfig.maxQueueSize) { operations.shift(); }
    operations.push({ ...op, id: crypto.randomUUID(), timestamp: Date.now(), retryCount: 0 });
    try { localStorage.setItem(appConfig.offlineQueueKey, JSON.stringify(operations)); }
    catch (error) { console.error(...); }
  }
  \<close>
  \<open>uuid\<close> and \<open>now\<close> are what \<open>crypto.randomUUID()\<close> and \<open>Date.now()\<close> return in this call.
\<close>

definition queueOperation ::
  "browser \<Rightarrow> string \<Rightarrow> int \<Rightarrow> NewOperation \<Rightarrow> localStorage \<Rightarrow> error + localStorage" where
  "queueOperation accepts uuid now op ls =
     (case getQueuedOperations ls of
        Inl e \<Rightarrow> Inl e
      | Inr operations \<Rightarrow>
          (let operations1 = (if length operations \<ge> maxQueueSize then shift operations else operations);
               operations2 = operations1 @ [make_operation uuid now op]
           in case setItem_queue accepts operations2 ls of
                Inr ls' \<Rightarrow> Inr ls'
              | Inl e \<Rightarrow> Inr ls))"

text \<open>
  \<^verbatim>\<open>
  export function removeFromQueue(id: string) {
    const operations = getQueuedOperations().filter(op => op.id !== id);
    try { localStorage.setItem(appConfig.offlineQueueKey, JSON.stringify(operations)); }
    catch (error) { console.error(...); }
  }
  \<close>
\<close>

definition removeFromQueue :: "browser \<Rightarrow> string \<Rightarrow> localStorage \<Rightarrow> error + localStorage" where
  "removeFromQueue accepts i ls =
     (case getQueuedOperations ls of
        Inl e \<Rightarrow> Inl e
      | Inr stored \<Rightarrow>
          (let operations = filter (\<lambda>op. op_id op \<noteq> i) stored
           in case setItem_queue accepts operations ls of
                Inr ls' \<Rightarrow> Inr ls'
              | Inl e \<Rightarrow> Inr ls))"

text \<open>
  \<^verbatim>\<open>
  export function incrementRetryCount(id: string) {
    const operations = getQueuedOperations().map(op =>
      op.id === id ? { ...op, retryCount: op.retryCount + 1 } : op);
    try { localStorage.setItem(appConfig.offlineQueueKey, JSON.stringify(operations)); }
    catch (error) { console.error(...); }
  }
  \<close>
\<close>

definition incrementRetryCount :: "browser \<Rightarrow> string \<Rightarrow> localStorage \<Rightarrow> error + localStorage" where
  "incrementRetryCount accepts i ls =
     (case getQueuedOperations ls of
        Inl e \<Rightarrow> Inl e
      | Inr stored \<Rightarrow>
          (let operations =
                 map (\<lambda>op. if op_id op = i then op\<lparr>retryCount := retryCount op + 1\<rparr> else op) stored
           in case setItem_queue accepts operations ls of
                Inr ls' \<Rightarrow> Inr ls'
              | Inl e \<Rightarrow> Inr ls))"

text \<open>\<^verbatim>\<open>export function shouldRetry(op) { return op.retryCount < appConfig.maxRetries; }\<close>\<close>

definition shouldRetry :: "QueuedOperation \<Rightarrow> bool" where
  "shouldRetry op = (retryCount op < maxRetries)"

text \<open>The queue as \<open>getQueuedOperations\<close> lists it, for use in statements.\<close>

definition queued :: "localStorage \<Rightarrow> QueuedOperation list" where
  "queued ls = (case getQueuedOperations ls of Inr operations \<Rightarrow> operations | Inl e \<Rightarrow> [])"

section \<open>The sync provider (SyncContext.tsx)\<close>

datatype SyncStatus = Syncing | Synced | Offline

datatype variant = Default | Destructive

text \<open>A notification, by its variant and title (the descriptions are fixed prose).\<close>

record toast =
  variant :: variant
  title :: string

text \<open>
  A remote document \<open>users/{uid}/data/{name}\<close>. Firestore holds any fields; \<open>items\<close> is
  \<open>None\<close> where the document has no such field.
\<close>

record document =
  items :: "json option"
  updatedAt :: int

text \<open>
  The state the provider's callbacks read and write: the Firestore handle \<open>db\<close> (present or
  not), the authenticated user (by uid), the React state, the \<open>isProcessingQueue\<close> ref, local
  storage, the remote documents of each user in the order \<open>getDocs\<close> lists them, the number
  of remote requests made so far, and the notifications shown so far.
\<close>

record SyncState =
  db :: bool
  user :: "string option"
  status :: SyncStatus
  lastSynced :: "int option"
  pendingOperations :: nat
  isProcessingQueue :: bool
  storage :: localStorage
  remote :: "string \<Rightarrow> (string \<times> document) list"
  requests :: nat
  toasts :: "toast list"
  reloaded :: bool

text \<open>
  The environment: whether the browser accepts a local-storage write, and whether the
  \<open>n\<close>-th remote request (a batch commit, a \<open>getDocs\<close>, a \<open>deleteDoc\<close>) succeeds.
\<close>

record environment =
  accepts :: browser
  succeeds :: "nat \<Rightarrow> bool"

text \<open>
  \<^verbatim>\<open>
  const STORAGE_KEYS = { products: "wyrd-ledger-products", customers: "wyrd-ledger-customers",
    settings: "wyrd-ledger-settings", bankAccounts: "wyrd-ledger-bank-accounts" };
  \<close>
  \<open>STORAGE_KEYS\<close> lists the object's own properties, in the order of \<open>Object.entries\<close>.
\<close>

definition STORAGE_KEYS :: "(string \<times> string) list" where
  "STORAGE_KEYS =
     [(''products'', ''wyrd-ledger-products''),
      (''customers'', ''wyrd-ledger-customers''),
      (''settings'', ''wyrd-ledger-settings''),
      (''bankAccounts'', ''wyrd-ledger-bank-accounts'')]"

text \<open>
  A property read \<open>STORAGE_KEYS[key]\<close> finds the object's own properties and, the object
  being an object literal, the members it inherits from \<open>Object.prototype\<close>: functions, and
  for \<open>__proto__\<close> the prototype object itself. All of these are truthy. Where a string is
  expected (the key of \<open>localStorage.setItem\<close>), a function is coerced to its source text,
  which engines print as \<open>function name() { [native code] }\<close> (the member \<open>constructor\<close> is
  the function \<open>Object\<close>), and the prototype object to \<open>[object Object]\<close>.
\<close>

definition Object_prototype :: "string list" where
  "Object_prototype =
     [''constructor'', ''__defineGetter__'', ''__defineSetter__'', ''hasOwnProperty'',
      ''__lookupGetter__'', ''__lookupSetter__'', ''isPrototypeOf'', ''propertyIsEnumerable'',
      ''toString'', ''valueOf'', ''__proto__'', ''toLocaleString'']"

datatype property = Own string | Inherited string

definition STORAGE_KEYS_get :: "string \<Rightarrow> property option" where
  "STORAGE_KEYS_get key =
     (case map_of STORAGE_KEYS key of
        Some v \<Rightarrow> Some (Own v)
      | None \<Rightarrow> if key \<in> set Object_prototype then Some (Inherited key) else None)"

fun truthy_property :: "property option \<Rightarrow> bool" where
  "truthy_property None = False"
| "truthy_property (Some (Own v)) = (v \<noteq> [])"
| "truthy_property (Some (Inherited m)) = True"

fun String_of :: "property \<Rightarrow> string" where
  "String_of (Own v) = v"
| "String_of (Inherited m) =
     (if m = ''__proto__'' then ''[object Object]''
      else ''function '' @ (if m = ''constructor'' then ''Object'' else m) @ ''() { [native code] }'')"

fun set_doc :: "string \<Rightarrow> document \<Rightarrow> (string \<times> document) list \<Rightarrow> (string \<times> document) list" where
  "set_doc k d [] = [(k, d)]"
| "set_doc k d ((k', d') # rest) =
     (if k = k' then (k, d) # rest else (k', d') # set_doc k d rest)"

definition notify :: "variant \<Rightarrow> string \<Rightarrow> SyncState \<Rightarrow> SyncState" where
  "notify v t s = s\<lparr>toasts := toasts s @ [\<lparr>variant = v, title = t\<rparr>]\<rparr>"

text \<open>
  \<^verbatim>\<open>
  const saveDataInternal = async (collectionName, data) => {
    if (!db || !user) { throw new Error("Cannot save: No database connection or user"); }
    const batch = writeBatch(db);
    batch.set(doc(db, "users", user.uid, "data", collectionName), { items: data, updatedAt: Timestamp.now() });
    await batch.commit();
    setLastSynced(new Date()); setStatus("synced");
  }
  \<close>
  An asynchronous function returns how its promise settles (\<open>Inr ()\<close> resolved, \<open>Inl e\<close>
  rejected) and the state it leaves.
\<close>

definition saveDataInternal ::
  "environment \<Rightarrow> int \<Rightarrow> string \<Rightarrow> json \<Rightarrow> SyncState \<Rightarrow> (error + unit) \<times> SyncState" where
  "saveDataInternal env now collectionName d s =
     (case user s of
        None \<Rightarrow> (Inl (Error ''Cannot save: No database connection or user''), s)
      | Some uid \<Rightarrow>
          if \<not> db s then (Inl (Error ''Cannot save: No database connection or user''), s)
          else
            (let n = requests s; s1 = s\<lparr>requests := n + 1\<rparr>
             in if succeeds env n
                then (Inr (),
                      s1\<lparr>remote := (remote s1)
                            (uid := set_doc collectionName \<lparr>items = Some d, updatedAt = now\<rparr> (remote s1 uid)),
                         lastSynced := Some now,
                         status := Synced\<rparr>)
                else (Inl FirebaseError, s1)))"


text \<open>
  One iteration of the loop of \<open>processQueue\<close>, on the operation \<open>op\<close> of the snapshot taken
  before the loop, with the running \<open>successCount\<close>:
  \<^verbatim>\<open>
      if (!shouldRetry(op)) { removeFromQueue(op.id); continue; }
      try {
        if (op.type === "save" && op.collection) {
          await saveDataInternal(op.collection, op.data);
          removeFromQueue(op.id);
          successCount++;
        }
      } catch (error) { incrementRetryCount(op.id); }
  \<close>
  \<open>replay\<close> is the body of the \<open>try\<close>.
\<close>

definition replay ::
  "environment \<Rightarrow> int \<Rightarrow> QueuedOperation \<Rightarrow> SyncState \<times> nat \<Rightarrow> (error + unit) \<times> SyncState \<times> nat" where
  "replay env now op acc =
     (case acc of (s, successCount) \<Rightarrow>
        (case collection op of
           None \<Rightarrow> (Inr (), s, successCount)
         | Some c \<Rightarrow>
             if op_type op = Save \<and> truthy_string (Some c) then
               (case saveDataInternal env now c (data op) s of
                  (Inl e, s1) \<Rightarrow> (Inl e, s1, successCount)
                | (Inr u, s1) \<Rightarrow>
                    (case removeFromQueue (accepts env) (op_id op) (storage s1) of
                       Inl e \<Rightarrow> (Inl e, s1, successCount)
                     | Inr ls \<Rightarrow> (Inr (), s1\<lparr>storage := ls\<rparr>, successCount + 1)))
             else (Inr (), s, successCount)))"

definition process_operation ::
  "environment \<Rightarrow> int \<Rightarrow> QueuedOperation \<Rightarrow> SyncState \<times> nat \<Rightarrow> (error + unit) \<times> SyncState \<times> nat" where
  "process_operation env now op acc =
     (case acc of (s, successCount) \<Rightarrow>
        if \<not> shouldRetry op then
          (case removeFromQueue (accepts env) (op_id op) (storage s) of
             Inl e \<Rightarrow> (Inl e, s, successCount)
           | Inr ls \<Rightarrow> (Inr (), s\<lparr>storage := ls\<rparr>, successCount))
        else
          (case replay env now op (s, successCount) of
             (Inr u, s1, c1) \<Rightarrow> (Inr (), s1, c1)
           | (Inl err, s1, c1) \<Rightarrow>
               (case incrementRetryCount (accepts env) (op_id op) (storage s1) of
                  Inl e \<Rightarrow> (Inl e, s1, c1)
                | Inr ls \<Rightarrow> (Inr (), s1\<lparr>storage := ls\<rparr>, c1))))"

text \<open>\<^verbatim>\<open>for (const op of operations) { ... }\<close>: an exception leaving an iteration ends the loop.\<close>

fun drain ::
  "environment \<Rightarrow> int \<Rightarrow> QueuedOperation list \<Rightarrow> SyncState \<times> nat \<Rightarrow> (error + unit) \<times> SyncState \<times> nat" where
  "drain env now [] acc = (Inr (), acc)"
| "drain env now (op # ops) acc =
     (case process_operation env now op acc of
        (Inl e, acc1) \<Rightarrow> (Inl e, acc1)
      | (Inr u, acc1) \<Rightarrow> drain env now ops acc1)"

text \<open>
  \<^verbatim>\<open>
  const processQueue = async () => {
    if (!db || !user || isProcessingQueue.current) return;
    const operations = getQueuedOperations();
    if (operations.length === 0) return;
    isProcessingQueue.current = true;
    let successCount = 0;
    for (const op of operations) { ... }
    const remaining = getQueuedOperations().length;
    setPendingOperations(remaining);
    isProcessingQueue.current = false;
    if (successCount > 0) { toast({ title: "Sync complete", ... }); }
  }
  \<close>
\<close>

text \<open>
  The call suspends at every \<open>await saveDataInternal(...)\<close> of its loop; other callbacks run
  then and see the state as it is at that point. No statement between the start of an
  iteration and its \<open>await\<close> changes the state, so the state seen at the suspension of an
  iteration is the state in which the iteration starts. \<open>awaits\<close> lists these states for the
  loop; an iteration that skips its operation or only removes it does not suspend.
\<close>

fun awaits ::
  "environment \<Rightarrow> int \<Rightarrow> QueuedOperation list \<Rightarrow> SyncState \<times> nat \<Rightarrow> SyncState list" where
  "awaits env now [] acc = []"
| "awaits env now (op # ops) acc =
     (if shouldRetry op \<and> op_type op = Save \<and> truthy_string (collection op) then [fst acc] else [])
     @ (case process_operation env now op acc of
          (Inl e, acc1) \<Rightarrow> []
        | (Inr u, acc1) \<Rightarrow> awaits env now ops acc1)"

text \<open>
  \<open>processQueue_run\<close> is the call with the states in which it was suspended; \<open>processQueue\<close>
  is how its promise settles and the state it leaves.
\<close>

definition processQueue_run ::
  "environment \<Rightarrow> int \<Rightarrow> SyncState \<Rightarrow> (error + unit) \<times> SyncState \<times> SyncState list" where
  "processQueue_run env now s =
     (if \<not> db s \<or> user s = None \<or> isProcessingQueue s then (Inr (), s, [])
      else
        (case getQueuedOperations (storage s) of
           Inl e \<Rightarrow> (Inl e, s, [])
         | Inr operations \<Rightarrow>
             if length operations = 0 then (Inr (), s, [])
             else
               (let s0 = s\<lparr>isProcessingQueue := True\<rparr>;
                    suspended = awaits env now operations (s0, 0)
                in case drain env now operations (s0, 0) of
                     (Inl e, s1, successCount) \<Rightarrow> (Inl e, s1, suspended)
                   | (Inr u, s1, successCount) \<Rightarrow>
                       (case getQueuedOperations (storage s1) of
                          Inl e \<Rightarrow> (Inl e, s1, suspended)
                        | Inr left \<Rightarrow>
                            (let s2 = s1\<lparr>pendingOperations := length left, isProcessingQueue := False\<rparr>
                             in if successCount > 0
                                then (Inr (), notify Default ''Sync complete'' s2, suspended)
                                else (Inr (), s2, suspended))))))"

definition processQueue :: "environment \<Rightarrow> int \<Rightarrow> SyncState \<Rightarrow> (error + unit) \<times> SyncState" where
  "processQueue env now s = (case processQueue_run env now s of (r, s1, suspended) \<Rightarrow> (r, s1))"

definition suspensions :: "environment \<Rightarrow> int \<Rightarrow> SyncState \<Rightarrow> SyncState list" where
  "suspensions env now s = (case processQueue_run env now s of (r, s1, suspended) \<Rightarrow> suspended)"

text \<open>
  The loop of \<open>sync\<close> that fills the batch, inside its \<open>try\<close>:
  \<^verbatim>\<open>
      for (const [key, storageKey] of Object.entries(STORAGE_KEYS)) {
        const localData = localStorage.getItem(storageKey);
        if (localData) {
          const parsed = JSON.parse(localData);
          batch.set(doc(db, "users", user.uid, "data", key),
            { items: Array.isArray(parsed) ? parsed : [parsed], updatedAt: Timestamp.now() });
        }
      }
  \<close>
\<close>

fun as_array :: "json \<Rightarrow> json" where
  "as_array (JArr xs) = JArr xs"
| "as_array v = JArr [v]"

fun sync_batch ::
  "int \<Rightarrow> localStorage \<Rightarrow> (string \<times> string) list \<Rightarrow> error + (string \<times> document) list" where
  "sync_batch now ls [] = Inr []"
| "sync_batch now ls ((key, storageKey) # rest) =
     (case entries ls storageKey of
        None \<Rightarrow> sync_batch now ls rest
      | Some localData \<Rightarrow>
          if truthy_text (Some localData) then
            (case JSON_parse localData of
               Inl e \<Rightarrow> Inl e
             | Inr parsed \<Rightarrow>
                 (case sync_batch now ls rest of
                    Inl e \<Rightarrow> Inl e
                  | Inr batch \<Rightarrow> Inr ((key, \<lparr>items = Some (as_array parsed), updatedAt = now\<rparr>) # batch)))
          else sync_batch now ls rest)"

fun commit :: "(string \<times> document) list \<Rightarrow> (string \<times> document) list \<Rightarrow> (string \<times> document) list" where
  "commit [] docs = docs"
| "commit ((k, d) # batch) docs = commit batch (set_doc k d docs)"

text \<open>
  \<^verbatim>\<open>
  const sync = async () => {
    if (!db || !user) {
      setStatus("offline");
      toast({ variant: "destructive", title: "Sync failed", ... });
      return;
    }
    setStatus("syncing");
    try {
      const batch = writeBatch(db);
      for (...) { ... }
      await batch.commit();
      setLastSynced(new Date()); setStatus("synced");
      toast({ title: "Sync complete", ... });
    } catch (error) {
      setStatus("offline");
      toast({ variant: "destructive", title: "Sync failed", ... });
    }
  }
  \<close>
\<close>

definition sync :: "environment \<Rightarrow> int \<Rightarrow> SyncState \<Rightarrow> (error + unit) \<times> SyncState" where
  "sync env now s =
     (case user s of
        None \<Rightarrow> (Inr (), notify Destructive ''Sync failed'' (s\<lparr>status := Offline\<rparr>))
      | Some uid \<Rightarrow>
          if \<not> db s then (Inr (), notify Destructive ''Sync failed'' (s\<lparr>status := Offline\<rparr>))
          else
            (let s1 = s\<lparr>status := Syncing\<rparr>
             in case sync_batch now (storage s1) STORAGE_KEYS of
                  Inl e \<Rightarrow> (Inr (), notify Destructive ''Sync failed'' (s1\<lparr>status := Offline\<rparr>))
                | Inr batch \<Rightarrow>
                    (let n = requests s1; s2 = s1\<lparr>requests := n + 1\<rparr>
                     in if succeeds env n
                        then (Inr (),
                              notify Default ''Sync complete''
                                (s2\<lparr>remote := (remote s2)(uid := commit batch (remote s2 uid)),
                                    lastSynced := Some now,
                                    status := Synced\<rparr>))
                        else (Inr (), notify Destructive ''Sync failed'' (s2\<lparr>status := Offline\<rparr>)))))"

text \<open>
  The callback of \<open>snapshot.forEach\<close> in \<open>restore\<close>, run over the documents in order; an
  exception of \<open>setItem\<close> leaves the loop:
  \<^verbatim>\<open>
      snapshot.forEach((docSnapshot) => {
        const key = docSnapshot.id as keyof typeof STORAGE_KEYS;
        const storageKey = STORAGE_KEYS[key];
        if (storageKey) {
          const data = docSnapshot.data();
          if (data.items) { localStorage.setItem(storageKey, JSON.stringify(data.items)); }
        }
      });
  \<close>
\<close>

fun restore_docs ::
  "browser \<Rightarrow> (string \<times> document) list \<Rightarrow> localStorage \<Rightarrow> (error + unit) \<times> localStorage" where
  "restore_docs acc [] ls = (Inr (), ls)"
| "restore_docs acc ((docId, d) # rest) ls =
     (let storageKey = STORAGE_KEYS_get docId
      in if truthy_property storageKey then
           (case (storageKey, items d) of
              (Some k, Some v) \<Rightarrow>
                if truthy (Some v) then
                  (case setItem acc (String_of k) v ls of
                     Inl e \<Rightarrow> (Inl e, ls)
                   | Inr ls1 \<Rightarrow> restore_docs acc rest ls1)
                else restore_docs acc rest ls
            | _ \<Rightarrow> restore_docs acc rest ls)
         else restore_docs acc rest ls)"

text \<open>
  \<^verbatim>\<open>
  const restore = async () => {
    if (!db || !user) { setStatus("offline"); throw new Error("Not connected to cloud"); }
    setStatus("syncing");
    try {
      const snapshot = await getDocs(collection(db, "users", user.uid, "data"));
      snapshot.forEach(...);
      setLastSynced(new Date()); setStatus("synced");
      toast({ title: "Restore complete", ... });
      window.location.reload();
    } catch (error) {
      setStatus("offline");
      toast({ variant: "destructive", title: "Restore failed", ... });
      throw error;
    }
  }
  \<close>
\<close>

definition restore :: "environment \<Rightarrow> int \<Rightarrow> SyncState \<Rightarrow> (error + unit) \<times> SyncState" where
  "restore env now s =
     (case user s of
        None \<Rightarrow> (Inl (Error ''Not connected to cloud''), s\<lparr>status := Offline\<rparr>)
      | Some uid \<Rightarrow>
          if \<not> db s then (Inl (Error ''Not connected to cloud''), s\<lparr>status := Offline\<rparr>)
          else
            (let n = requests s; s1 = s\<lparr>status := Syncing, requests := n + 1\<rparr>
             in if \<not> succeeds env n
                then (Inl FirebaseError, notify Destructive ''Restore failed'' (s1\<lparr>status := Offline\<rparr>))
                else
                  (case restore_docs (accepts env) (remote s1 uid) (storage s1) of
                     (Inl e, ls) \<Rightarrow>
                       (Inl e, notify Destructive ''Restore failed'' (s1\<lparr>storage := ls, status := Offline\<rparr>))
                   | (Inr u, ls) \<Rightarrow>
                       (Inr (),
                        (notify Default ''Restore complete''
                           (s1\<lparr>storage := ls, lastSynced := Some now, status := Synced\<rparr>))
                        \<lparr>reloaded := True\<rparr>))))"

text \<open>
  The deletions of \<open>resetAllData\<close>: every \<open>deleteDoc\<close> is started, each is one remote
  request, and \<open>Promise.all\<close> rejects when one of them fails. The result is the documents
  left and whether all deletions succeeded.
\<close>

fun delete_docs ::
  "(nat \<Rightarrow> bool) \<Rightarrow> nat \<Rightarrow> (string \<times> document) list \<Rightarrow> (string \<times> document) list \<times> bool" where
  "delete_docs ok n [] = ([], True)"
| "delete_docs ok n (kd # rest) =
     (case delete_docs ok (n + 1) rest of
        (left, all_ok) \<Rightarrow> if ok n then (left, all_ok) else (kd # left, False))"

text \<open>
  \<^verbatim>\<open>
  const resetAllData = async () => {
    if (!db || !user) { throw new Error("Cannot reset: No database connection or user"); }
    setStatus("syncing");
    try {
      const snapshot = await getDocs(collection(db, "users", user.uid, "data"));
      const deletePromises = snapshot.docs.map((d) => deleteDoc(doc(db, "users", user.uid, "data", d.id)));
      await Promise.all(deletePromises);
      setStatus("synced"); setLastSynced(null);
    } catch (error) { setStatus("offline"); throw error; }
  }
  \<close>
\<close>

definition resetAllData :: "environment \<Rightarrow> SyncState \<Rightarrow> (error + unit) \<times> SyncState" where
  "resetAllData env s =
     (case user s of
        None \<Rightarrow> (Inl (Error ''Cannot reset: No database connection or user''), s)
      | Some uid \<Rightarrow>
          if \<not> db s then (Inl (Error ''Cannot reset: No database connection or user''), s)
          else
            (let n = requests s; s1 = s\<lparr>status := Syncing, requests := n + 1\<rparr>
             in if \<not> succeeds env n then (Inl FirebaseError, s1\<lparr>status := Offline\<rparr>)
                else
                  (let docs = remote s1 uid;
                       s2 = s1\<lparr>requests := n + 1 + length docs\<rparr>
                   in case delete_docs (succeeds env) (n + 1) docs of
                        (left, all_ok) \<Rightarrow>
                          if all_ok
                          then (Inr (), s2\<lparr>remote := (remote s2)(uid := left), status := Synced, lastSynced := None\<rparr>)
                          else (Inl FirebaseError, s2\<lparr>remote := (remote s2)(uid := left), status := Offline\<rparr>))))"

section \<open>Inputs used in statements and examples\<close>

text \<open>A browser whose storage refuses every write, and one that accepts every write.\<close>

definition storage_disabled :: browser where
  "storage_disabled ls = False"

definition storage_unlimited :: browser where
  "storage_unlimited ls = True"

text \<open>What \<open>queueOperation\<close> hands to \<open>setItem\<close>: the storage as the write would leave it.\<close>

definition enqueued :: "string \<Rightarrow> int \<Rightarrow> NewOperation \<Rightarrow> QueuedOperation list \<Rightarrow> QueuedOperation list" where
  "enqueued uuid now op operations =
     (if length operations \<ge> maxQueueSize then shift operations else operations)
       @ [make_operation uuid now op]"

definition with_queue :: "QueuedOperation list \<Rightarrow> localStorage \<Rightarrow> localStorage" where
  "with_queue operations ls = ls\<lparr>offlineQueue := Some (Stringified operations)\<rparr>"

text \<open>
  A sequence of calls of \<open>queueOperation\<close>, each with the id and time it draws, and whether
  the browser accepts the write of every call in the sequence.
\<close>

fun queueOperations ::
  "browser \<Rightarrow> (string \<times> int \<times> NewOperation) list \<Rightarrow> localStorage \<Rightarrow> error + localStorage" where
  "queueOperations acc [] ls = Inr ls"
| "queueOperations acc ((uuid, now, op) # calls) ls =
     (case queueOperation acc uuid now op ls of
        Inl e \<Rightarrow> Inl e
      | Inr ls1 \<Rightarrow> queueOperations acc calls ls1)"

fun writes_accepted ::
  "browser \<Rightarrow> (string \<times> int \<times> NewOperation) list \<Rightarrow> localStorage \<Rightarrow> bool" where
  "writes_accepted acc [] ls = True"
| "writes_accepted acc ((uuid, now, op) # calls) ls =
     (let ls1 = with_queue (enqueued uuid now op (queued ls)) ls
      in acc ls1 \<and> writes_accepted acc calls ls1)"

definition made :: "string \<times> int \<times> NewOperation \<Rightarrow> QueuedOperation" where
  "made call = (case call of (uuid, now, op) \<Rightarrow> make_operation uuid now op)"

definition example_new :: NewOperation where
  "example_new = \<lparr>new_type = Save, new_collection = Some ''products'', new_data = JArr []\<rparr>"

definition example_op :: "string \<Rightarrow> int \<Rightarrow> QueuedOperation" where
  "example_op i r =
     \<lparr>op_id = i, op_type = Save, collection = Some ''products'', data = JArr [],
      timestamp = 0, retryCount = r\<rparr>"

definition example_storage :: "QueuedOperation list \<Rightarrow> localStorage" where
  "example_storage operations = \<lparr>offlineQueue = Some (Stringified operations), entries = Map.empty\<rparr>"

text \<open>
  The storage after the guarded write \<open>try { setItem(...) } catch { }\<close> of a new queue, the
  queue without the operations of one id, and the queue with the retry count of the
  operations of one id incremented.
\<close>

definition written :: "browser \<Rightarrow> QueuedOperation list \<Rightarrow> localStorage \<Rightarrow> localStorage" where
  "written acc operations ls =
     (if acc (with_queue operations ls) then with_queue operations ls else ls)"

definition without :: "string \<Rightarrow> QueuedOperation list \<Rightarrow> QueuedOperation list" where
  "without i operations = filter (\<lambda>op. op_id op \<noteq> i) operations"

definition retried :: "QueuedOperation \<Rightarrow> QueuedOperation" where
  "retried op = op\<lparr>retryCount := retryCount op + 1\<rparr>"

definition bumped :: "string \<Rightarrow> QueuedOperation list \<Rightarrow> QueuedOperation list" where
  "bumped i operations = map (\<lambda>op. if op_id op = i then retried op else op) operations"

text \<open>The operations that the loop of \<open>processQueue\<close> replays: \<open>op.type === "save" && op.collection\<close>.\<close>

definition replayable :: "QueuedOperation \<Rightarrow> bool" where
  "replayable op = (op_type op = Save \<and> truthy_string (collection op))"

text \<open>Fifty queued operations with distinct ids, and fifty-one calls with distinct ids.\<close>

definition numbered_op :: "nat \<Rightarrow> QueuedOperation" where
  "numbered_op n = example_op (replicate n (CHR ''x'')) 0"

definition full_storage :: localStorage where
  "full_storage = example_storage (map numbered_op [0..<50])"

definition numbered_call :: "nat \<Rightarrow> string \<times> int \<times> NewOperation" where
  "numbered_call n = (replicate n (CHR ''y''), int n, example_new)"

definition empty_storage :: localStorage where
  "empty_storage = \<lparr>offlineQueue = None, entries = Map.empty\<rparr>"

text \<open>Remote requests that all succeed, or all fail; example states and environments.\<close>

definition always :: "nat \<Rightarrow> bool" where
  "always n = True"

definition never :: "nat \<Rightarrow> bool" where
  "never n = False"

definition example_state :: "QueuedOperation list \<Rightarrow> SyncState" where
  "example_state operations =
     \<lparr>db = True, user = Some ''alice'', status = Synced, lastSynced = None,
      pendingOperations = length operations, isProcessingQueue = False,
      storage = example_storage operations, remote = (\<lambda>uid. []), requests = 0,
      toasts = [], reloaded = False\<rparr>"

definition example_sync_op :: QueuedOperation where
  "example_sync_op =
     \<lparr>op_id = ''s'', op_type = Sync, collection = None, data = JNull,
      timestamp = 0, retryCount = 0\<rparr>"

definition online_env :: environment where
  "online_env = \<lparr>accepts = storage_unlimited, succeeds = always\<rparr>"

definition failing_env :: environment where
  "failing_env = \<lparr>accepts = storage_unlimited, succeeds = never\<rparr>"


text \<open>
  The drain as the specification words it, to be compared with \<open>processQueue\<close>: the
  operations are visited in queue order; an operation whose retry count has reached
  \<open>maxRetries\<close> is dropped without a replay; a replayable operation is replayed with the next
  remote request (number \<open>n\<close>), dropped when that request succeeds, and kept with its retry
  count incremented when it fails; any other operation is kept. \<open>drained_spec\<close> is the queue
  left, \<open>successes_spec\<close> the number of successful replays, and \<open>attempts\<close> the number of
  replays made.
\<close>

fun drained_spec :: "(nat \<Rightarrow> bool) \<Rightarrow> nat \<Rightarrow> QueuedOperation list \<Rightarrow> QueuedOperation list" where
  "drained_spec ok n [] = []"
| "drained_spec ok n (op # ops) =
     (if retryCount op \<ge> maxRetries then drained_spec ok n ops
      else if replayable op then
        (if ok n then drained_spec ok (Suc n) ops else retried op # drained_spec ok (Suc n) ops)
      else op # drained_spec ok n ops)"


definition attempts :: "QueuedOperation list \<Rightarrow> nat" where
  "attempts ops = length (filter (\<lambda>op. shouldRetry op \<and> replayable op) ops)"





text \<open>A remote that accepts the first request only, and a state with three queued operations.\<close>

definition first_only :: "nat \<Rightarrow> bool" where
  "first_only n = (n = 0)"

definition flaky_env :: environment where
  "flaky_env = \<lparr>accepts = storage_unlimited, succeeds = first_only\<rparr>"





definition offline_state :: SyncState where
  "offline_state = (example_state [])\<lparr>db := False\<rparr>"












text \<open>A state whose user has the two remote partitions \<open>products\<close> and \<open>customers\<close>.\<close>

definition two_partitions :: SyncState where
  "two_partitions =
     (example_state [])\<lparr>remote := (\<lambda>uid.
        [(''products'', \<lparr>items = Some (JArr []), updatedAt = 0\<rparr>),
         (''customers'', \<lparr>items = Some (JArr []), updatedAt = 0\<rparr>)])\<rparr>"

section \<open>Facts about the offline queue\<close>

lemma getQueuedOperations_queued: "getQueuedOperations ls = Inr (queued ls)"
  by (simp add: queued_def getQueuedOperations_def split: sum.splits)

lemma queued_with_queue [simp]: "queued (with_queue operations ls) = operations"
  by (simp add: queued_def getQueuedOperations_def getQueuedOperations_body_def with_queue_def)

lemma queued_example_storage [simp]: "queued (example_storage operations) = operations"
  by (simp add: queued_def getQueuedOperations_def getQueuedOperations_body_def
      example_storage_def)

lemma setItem_queue_eq:
  "setItem_queue acc operations ls =
     (if acc (with_queue operations ls) then Inr (with_queue operations ls)
      else Inl QuotaExceededError)"
  by (simp add: setItem_queue_def with_queue_def Let_def)

lemma queueOperation_eq:
  "queueOperation acc uuid now op ls =
     Inr (if acc (with_queue (enqueued uuid now op (queued ls)) ls)
          then with_queue (enqueued uuid now op (queued ls)) ls else ls)"
  by (simp add: queueOperation_def getQueuedOperations_queued setItem_queue_eq enqueued_def
      Let_def)

lemma removeFromQueue_eq:
  "removeFromQueue acc i ls =
     Inr (if acc (with_queue (filter (\<lambda>op. op_id op \<noteq> i) (queued ls)) ls)
          then with_queue (filter (\<lambda>op. op_id op \<noteq> i) (queued ls)) ls else ls)"
  by (simp add: removeFromQueue_def getQueuedOperations_queued setItem_queue_eq Let_def)

lemma incrementRetryCount_eq:
  "incrementRetryCount acc i ls =
     Inr (if acc (with_queue
                   (map (\<lambda>op. if op_id op = i then op\<lparr>retryCount := retryCount op + 1\<rparr> else op)
                      (queued ls)) ls)
          then with_queue
                 (map (\<lambda>op. if op_id op = i then op\<lparr>retryCount := retryCount op + 1\<rparr> else op)
                    (queued ls)) ls
          else ls)"
  by (simp add: incrementRetryCount_def getQueuedOperations_queued setItem_queue_eq Let_def)

lemma length_enqueued:
  "length operations \<le> maxQueueSize \<Longrightarrow> length (enqueued uuid now op operations) \<le> maxQueueSize"
  by (cases operations) (auto simp: enqueued_def maxQueueSize_def)

lemma enqueued_drop:
  "length operations \<le> maxQueueSize \<Longrightarrow>
   enqueued uuid now op operations =
     drop (length operations + 1 - maxQueueSize) (operations @ [make_operation uuid now op])"
  by (cases operations) (auto simp: enqueued_def maxQueueSize_def)

section \<open>Claims about the offline queue\<close>

text \<open>
  C6. For every queued operation, \<open>shouldRetry\<close> is true exactly when its retry count is
  below \<open>maxRetries\<close>, which is configured as 3.
\<close>

theorem shouldRetry_iff_below_maxRetries:
  "shouldRetry op = (retryCount op < maxRetries) \<and> maxRetries = 3"
  by (simp add: shouldRetry_def maxRetries_def)

text \<open>
  C9 (as the code has it). \<open>getQueuedOperations\<close> never throws: for every state of the
  stored queue text it returns normally. It returns the empty list when nothing is stored,
  when the stored text is the empty string and when it is not parseable JSON. For a text
  that parses it returns the parsed value as it is, so it returns a list exactly when it
  takes one of these three exits or the text denotes an array. On the texts this module
  writes, which serialise lists of operations, it returns the stored operations.
\<close>

theorem getQueuedOperations_never_throws:
  "(\<exists>v. getQueuedOperations_untyped item = Inr v)
   \<and> getQueuedOperations_untyped None = Inr (JArr [])
   \<and> getQueuedOperations_untyped (Some Malformed) = Inr (JArr [])
   \<and> getQueuedOperations_untyped (Some EmptyText) = Inr (JArr [])
   \<and> getQueuedOperations_untyped (Some (Stringified v)) = Inr v
   \<and> (\<exists>xs. getQueuedOperations_untyped item = Inr (JArr xs))
       = (case item of Some (Stringified parsed) \<Rightarrow> is_array parsed | _ \<Rightarrow> True)
   \<and> getQueuedOperations_untyped (map_option (map_stored json_of_queue) (offlineQueue ls))
       = map_sum id json_of_queue (getQueuedOperations ls)
   \<and> (\<exists>operations. getQueuedOperations ls = Inr operations)
   \<and> getQueuedOperations (ls\<lparr>offlineQueue := None\<rparr>) = Inr []
   \<and> getQueuedOperations (ls\<lparr>offlineQueue := Some Malformed\<rparr>) = Inr []
   \<and> getQueuedOperations (ls\<lparr>offlineQueue := Some EmptyText\<rparr>) = Inr []
   \<and> getQueuedOperations (ls\<lparr>offlineQueue := Some (Stringified stored)\<rparr>) = Inr stored"
proof -
  have untyped: "getQueuedOperations_untyped item =
      (case item of Some (Stringified parsed) \<Rightarrow> Inr parsed | _ \<Rightarrow> Inr (JArr []))" for item
    by (simp add: getQueuedOperations_untyped_def getQueuedOperations_untyped_body_def
        split: option.splits stored.splits)
  have typed: "getQueuedOperations ls =
      (case offlineQueue ls of Some (Stringified operations) \<Rightarrow> Inr operations | _ \<Rightarrow> Inr [])" for ls
    by (simp add: getQueuedOperations_def getQueuedOperations_body_def
        split: option.splits stored.splits)
  have listed: "(\<exists>xs. getQueuedOperations_untyped item = Inr (JArr xs))
       = (case item of Some (Stringified parsed) \<Rightarrow> is_array parsed | _ \<Rightarrow> True)"
  proof (cases item)
    case None
    then show ?thesis by (simp add: untyped)
  next
    case (Some stored)
    show ?thesis
    proof (cases stored)
      case (Stringified parsed)
      then show ?thesis
        by (cases parsed) (simp_all add: untyped Some)
    qed (simp_all add: untyped Some)
  qed
  have agree: "getQueuedOperations_untyped (map_option (map_stored json_of_queue) (offlineQueue ls))
       = map_sum id json_of_queue (getQueuedOperations ls)"
    by (simp add: untyped typed json_of_queue_def split: option.splits stored.splits)
  have never: "\<exists>v. getQueuedOperations_untyped item = Inr v"
    by (simp add: untyped split: option.splits stored.splits)
  have exits: "getQueuedOperations_untyped None = Inr (JArr [])"
    "getQueuedOperations_untyped (Some Malformed) = Inr (JArr [])"
    "getQueuedOperations_untyped (Some EmptyText) = Inr (JArr [])"
    "getQueuedOperations_untyped (Some (Stringified v)) = Inr v"
    by (simp_all add: untyped)
  have never_typed: "\<exists>operations. getQueuedOperations ls = Inr operations"
    by (simp add: typed split: option.splits stored.splits)
  have exits_typed: "getQueuedOperations (ls\<lparr>offlineQueue := None\<rparr>) = Inr []"
    "getQueuedOperations (ls\<lparr>offlineQueue := Some Malformed\<rparr>) = Inr []"
    "getQueuedOperations (ls\<lparr>offlineQueue := Some EmptyText\<rparr>) = Inr []"
    "getQueuedOperations (ls\<lparr>offlineQueue := Some (Stringified stored)\<rparr>) = Inr stored"
    by (simp_all add: typed)
  show ?thesis
    by (intro conjI)
      (rule never exits(1) exits(2) exits(3) exits(4) listed agree never_typed
         exits_typed(1) exits_typed(2) exits_typed(3) exits_typed(4))+
qed

text \<open>
  C9 as stated fails: for the stored text \<open>null\<close>, which parses, \<open>getQueuedOperations\<close>
  returns \<open>null\<close>, which is not a list.
\<close>

theorem getQueuedOperations_null_counterexample:
  "getQueuedOperations_untyped (Some (Stringified JNull)) = Inr JNull \<and> \<not> is_array JNull"
  by (simp add: getQueuedOperations_untyped_def getQueuedOperations_untyped_body_def)

lemma queueOperations_bounded:
  "length (queued ls) \<le> maxQueueSize \<Longrightarrow>
   \<exists>ls'. queueOperations acc calls ls = Inr ls' \<and> length (queued ls') \<le> maxQueueSize"
proof (induction calls arbitrary: ls)
  case Nil
  then show ?case by simp
next
  case (Cons call calls)
  obtain uuid now op where call: "call = (uuid, now, op)"
    by (cases call) auto
  define ls1 where
    "ls1 = (if acc (with_queue (enqueued uuid now op (queued ls)) ls)
            then with_queue (enqueued uuid now op (queued ls)) ls else ls)"
  have "length (queued ls1) \<le> maxQueueSize"
    using Cons.prems by (simp add: ls1_def length_enqueued)
  from Cons.IH [OF this] show ?case
    by (simp add: call queueOperation_eq ls1_def)
qed

lemma drop_enqueued_append:
  assumes "length q \<le> maxQueueSize"
  shows "drop (length (enqueued uuid now op q) + n - maxQueueSize) (enqueued uuid now op q @ rest) =
         drop (length q + Suc n - maxQueueSize) (q @ make_operation uuid now op # rest)"
proof (cases "length q < maxQueueSize")
  case True
  then show ?thesis by (simp add: enqueued_def)
next
  case False
  with assms have full: "length q = maxQueueSize" by simp
  then obtain x xs where q: "q = x # xs"
    by (cases q) (auto simp: maxQueueSize_def)
  show ?thesis using full by (simp add: enqueued_def q)
qed

lemma queueOperations_accepted:
  "writes_accepted acc calls ls \<Longrightarrow> length (queued ls) \<le> maxQueueSize \<Longrightarrow>
   \<exists>ls'. queueOperations acc calls ls = Inr ls' \<and>
     queued ls' = drop (length (queued ls) + length calls - maxQueueSize) (queued ls @ map made calls)"
proof (induction calls arbitrary: ls)
  case Nil
  then show ?case by simp
next
  case (Cons call calls)
  obtain uuid now op where call: "call = (uuid, now, op)"
    by (cases call) auto
  define ls1 where "ls1 = with_queue (enqueued uuid now op (queued ls)) ls"
  have acc1: "acc ls1" and rest: "writes_accepted acc calls ls1"
    using Cons.prems(1) by (simp_all add: call ls1_def Let_def)
  have q1: "queued ls1 = enqueued uuid now op (queued ls)"
    by (simp add: ls1_def)
  have "length (queued ls1) \<le> maxQueueSize"
    using Cons.prems(2) by (simp add: q1 length_enqueued)
  from Cons.IH [OF rest this] obtain ls' where
    run: "queueOperations acc calls ls1 = Inr ls'" and
    q': "queued ls' = drop (length (queued ls1) + length calls - maxQueueSize) (queued ls1 @ map made calls)"
    by blast
  have "queueOperations acc (call # calls) ls = Inr ls'"
    using acc1 run by (simp add: call queueOperation_eq ls1_def)
  moreover have "queued ls' =
      drop (length (queued ls) + length (call # calls) - maxQueueSize) (queued ls @ map made (call # calls))"
    using drop_enqueued_append [OF Cons.prems(2), of uuid now op "length calls" "map made calls"]
    by (simp add: q' q1 call made_def)
  ultimately show ?case by blast
qed

lemma writes_accepted_unlimited: "writes_accepted storage_unlimited calls ls"
  by (induction calls arbitrary: ls) (auto simp: storage_unlimited_def Let_def)




lemma drop_51: "length q \<le> 50 \<Longrightarrow> length calls = 51 \<Longrightarrow>
   drop (length q + 51 - 50) (q @ map made calls) = map made (tl calls)"
  by (cases calls) (auto simp: drop_map)

lemma queued_full_storage: "queued full_storage = map numbered_op [0..<50]"
  by (simp add: full_storage_def)

lemma queued_empty_storage: "queued empty_storage = []"
  by (simp add: empty_storage_def queued_def getQueuedOperations_def getQueuedOperations_body_def)

lemma distinct_numbered_calls: "distinct (map fst (map numbered_call [0..<n]))"
proof -
  have "inj_on (\<lambda>k. replicate k (CHR ''y'')) A" for A :: "nat set"
    by (rule inj_onI) (drule arg_cong [where f = length], simp)
  then show ?thesis
    by (simp add: distinct_map comp_def numbered_call_def)
qed

text \<open>
  C1 (as the code has it). \<open>maxQueueSize\<close> is 50. Starting from a queue of at most
  \<open>maxQueueSize\<close> entries, \<open>queueOperation\<close> never throws and the queue never exceeds
  \<open>maxQueueSize\<close> entries after any sequence of calls. A call whose write the browser accepts
  appends the new operation at the tail, after evicting the oldest entry when the queue
  already held \<open>maxQueueSize\<close> entries; a call whose write the browser refuses leaves the queue
  as it was. When every write of a sequence of calls is accepted, the queue is the last
  \<open>maxQueueSize\<close> entries of the old queue followed by the new operations: after 51 calls it
  holds exactly the 50 operations of the last 50 calls, and, the ids being distinct, no
  operation with the id of the first call.
\<close>

theorem queueOperation_bounded_fifo:
  assumes "length (queued ls) \<le> maxQueueSize"
  shows
  "maxQueueSize = 50 \<and>
   (\<exists>ls1. queueOperation acc uuid now op ls = Inr ls1 \<and> length (queued ls1) \<le> maxQueueSize \<and>
      (acc (with_queue (enqueued uuid now op (queued ls)) ls) \<and> length (queued ls) = maxQueueSize \<longrightarrow>
         queued ls1 = tl (queued ls) @ [make_operation uuid now op]) \<and>
      (acc (with_queue (enqueued uuid now op (queued ls)) ls) \<and> length (queued ls) < maxQueueSize \<longrightarrow>
         queued ls1 = queued ls @ [make_operation uuid now op]) \<and>
      (\<not> acc (with_queue (enqueued uuid now op (queued ls)) ls) \<longrightarrow> queued ls1 = queued ls)) \<and>
   (\<exists>ls'. queueOperations acc calls ls = Inr ls' \<and> length (queued ls') \<le> maxQueueSize \<and>
      (writes_accepted acc calls ls \<longrightarrow>
         queued ls' =
           drop (length (queued ls) + length calls - maxQueueSize) (queued ls @ map made calls) \<and>
         (length calls = 51 \<longrightarrow>
            queued ls' = map made (tl calls) \<and> length (queued ls') = 50 \<and>
            (distinct (map fst calls) \<longrightarrow> fst (hd calls) \<notin> op_id ` set (queued ls')))))"
proof -
  have one: "\<exists>ls1. queueOperation acc uuid now op ls = Inr ls1 \<and> length (queued ls1) \<le> maxQueueSize \<and>
      (acc (with_queue (enqueued uuid now op (queued ls)) ls) \<and> length (queued ls) = maxQueueSize \<longrightarrow>
         queued ls1 = tl (queued ls) @ [make_operation uuid now op]) \<and>
      (acc (with_queue (enqueued uuid now op (queued ls)) ls) \<and> length (queued ls) < maxQueueSize \<longrightarrow>
         queued ls1 = queued ls @ [make_operation uuid now op]) \<and>
      (\<not> acc (with_queue (enqueued uuid now op (queued ls)) ls) \<longrightarrow> queued ls1 = queued ls)"
  proof (cases "acc (with_queue (enqueued uuid now op (queued ls)) ls)")
    case True
    have "enqueued uuid now op (queued ls) = tl (queued ls) @ [make_operation uuid now op]"
      if "length (queued ls) = maxQueueSize"
      using that by (cases "queued ls") (auto simp: enqueued_def maxQueueSize_def)
    moreover have "enqueued uuid now op (queued ls) = queued ls @ [make_operation uuid now op]"
      if "length (queued ls) < maxQueueSize"
      using that by (simp add: enqueued_def)
    ultimately show ?thesis
      using True assms by (simp add: queueOperation_eq length_enqueued)
  next
    case False
    then show ?thesis using assms by (simp add: queueOperation_eq)
  qed
  have many: "\<exists>ls'. queueOperations acc calls ls = Inr ls' \<and> length (queued ls') \<le> maxQueueSize \<and>
      (writes_accepted acc calls ls \<longrightarrow>
         queued ls' =
           drop (length (queued ls) + length calls - maxQueueSize) (queued ls @ map made calls) \<and>
         (length calls = 51 \<longrightarrow>
            queued ls' = map made (tl calls) \<and> length (queued ls') = 50 \<and>
            (distinct (map fst calls) \<longrightarrow> fst (hd calls) \<notin> op_id ` set (queued ls'))))"
  proof -
    from queueOperations_bounded [OF assms] obtain ls' where
      run: "queueOperations acc calls ls = Inr ls'" and bound: "length (queued ls') \<le> maxQueueSize"
      by blast
    have closed: "queued ls' =
        drop (length (queued ls) + length calls - maxQueueSize) (queued ls @ map made calls)"
      if "writes_accepted acc calls ls"
      using queueOperations_accepted [OF that assms] run by simp
    have last50: "queued ls' = map made (tl calls)"
      if "writes_accepted acc calls ls" "length calls = 51"
      using closed [OF that(1)] drop_51 [of "queued ls" calls] assms that(2)
      by (simp add: maxQueueSize_def)
    have ids: "op_id (made call) = fst call" for call
      by (cases call) (simp add: made_def make_operation_def)
    have gone: "fst (hd calls) \<notin> op_id ` set (map made (tl calls))"
      if "length calls = 51" "distinct (map fst calls)"
    proof -
      from that(1) obtain c cs where calls: "calls = c # cs" by (cases calls) auto
      have "op_id ` set (map made cs) = fst ` set cs"
        by (simp add: image_image ids)
      with that(2) show ?thesis by (auto simp: calls)
    qed
    show ?thesis
      using run bound closed last50 gone by (auto simp del: set_map)
  qed
  from one many show ?thesis by (simp add: maxQueueSize_def)
qed


theorem queueOperation_bounded_fifo_witness:
  "length (queued full_storage) = maxQueueSize \<and>
   storage_unlimited (with_queue (enqueued ''new'' 1 example_new (queued full_storage)) full_storage) \<and>
   (\<exists>ls1. queueOperation storage_unlimited ''new'' 1 example_new full_storage = Inr ls1 \<and>
      queued ls1 = tl (queued full_storage) @ [make_operation ''new'' 1 example_new]) \<and>
   \<not> storage_disabled (with_queue (enqueued ''new'' 1 example_new (queued full_storage)) full_storage) \<and>
   (\<exists>ls1. queueOperation storage_disabled ''new'' 1 example_new full_storage = Inr ls1 \<and>
      queued ls1 = queued full_storage) \<and>
   length (queued empty_storage) < maxQueueSize \<and>
   (\<exists>ls1. queueOperation storage_unlimited ''new'' 1 example_new empty_storage = Inr ls1 \<and>
      queued ls1 = queued empty_storage @ [make_operation ''new'' 1 example_new]) \<and>
   writes_accepted storage_unlimited (map numbered_call [0..<51]) empty_storage \<and>
   length (map numbered_call [0..<51]) = 51 \<and>
   distinct (map fst (map numbered_call [0..<51])) \<and>
   (\<exists>ls'. queueOperations storage_unlimited (map numbered_call [0..<51]) empty_storage = Inr ls' \<and>
      queued ls' = map made (tl (map numbered_call [0..<51])) \<and>
      length (queued ls') = 50 \<and>
      fst (hd (map numbered_call [0..<51])) \<notin> op_id ` set (queued ls'))"
proof -
  let ?calls = "map numbered_call [0..<51]"
  have full: "length (queued full_storage) = maxQueueSize"
    by (simp add: queued_full_storage maxQueueSize_def)
  have full_le: "length (queued full_storage) \<le> maxQueueSize"
    using full by simp
  have empty_lt: "length (queued empty_storage) < maxQueueSize"
    by (simp add: queued_empty_storage maxQueueSize_def)
  have empty_le: "length (queued empty_storage) \<le> maxQueueSize"
    using empty_lt by simp
  have yes: "storage_unlimited x" for x
    by (simp add: storage_unlimited_def)
  have no: "\<not> storage_disabled x" for x
    by (simp add: storage_disabled_def)
  have len: "length ?calls = 51"
    by simp
  have a: "\<exists>ls1. queueOperation storage_unlimited ''new'' 1 example_new full_storage = Inr ls1 \<and>
      queued ls1 = tl (queued full_storage) @ [make_operation ''new'' 1 example_new]"
    using queueOperation_bounded_fifo [OF full_le, of storage_unlimited "''new''" 1 example_new "[]"]
      full yes by blast
  have b: "\<exists>ls1. queueOperation storage_disabled ''new'' 1 example_new full_storage = Inr ls1 \<and>
      queued ls1 = queued full_storage"
    using queueOperation_bounded_fifo [OF full_le, of storage_disabled "''new''" 1 example_new "[]"]
      no by blast
  have c: "\<exists>ls1. queueOperation storage_unlimited ''new'' 1 example_new empty_storage = Inr ls1 \<and>
      queued ls1 = queued empty_storage @ [make_operation ''new'' 1 example_new]"
    using queueOperation_bounded_fifo [OF empty_le, of storage_unlimited "''new''" 1 example_new "[]"]
      empty_lt yes by blast
  have d: "\<exists>ls'. queueOperations storage_unlimited ?calls empty_storage = Inr ls' \<and>
      queued ls' = map made (tl ?calls) \<and>
      length (queued ls') = 50 \<and>
      fst (hd ?calls) \<notin> op_id ` set (queued ls')"
    using queueOperation_bounded_fifo [OF empty_le, of storage_unlimited "''new''" 1 example_new ?calls]
      writes_accepted_unlimited [of ?calls empty_storage] len distinct_numbered_calls [of 51]
    by blast
  from full yes a no b empty_lt c writes_accepted_unlimited [of ?calls empty_storage] len
    distinct_numbered_calls [of 51] d
  show ?thesis by blast
qed

text \<open>
  C1 as stated fails: with the queue at \<open>maxQueueSize\<close> entries and a browser that refuses
  the write, \<open>queueOperation\<close> leaves the queue as it was; the oldest entry is still there
  and the new operation is not.
\<close>

theorem queueOperation_refused_counterexample:
  "length (queued full_storage) = maxQueueSize \<and>
   queueOperation storage_disabled ''new'' 1 example_new full_storage = Inr full_storage \<and>
   hd (queued full_storage) = numbered_op 0 \<and>
   numbered_op 0 \<in> set (queued full_storage) \<and>
   make_operation ''new'' 1 example_new \<notin> set (queued full_storage)"
proof -
  have "[0..<50] = 0 # [1..<50]"
    by (simp add: upt_rec)
  then have "hd (map numbered_op [0..<50]) = numbered_op 0"
    by simp
  moreover have "make_operation ''new'' 1 example_new \<noteq> numbered_op n" for n
    by (simp add: make_operation_def numbered_op_def example_op_def)
  ultimately show ?thesis
    by (auto simp: queued_full_storage maxQueueSize_def queueOperation_eq storage_disabled_def)
qed


section \<open>Facts about the drain\<close>

lemma removeFromQueue_written:
  "removeFromQueue acc i ls = Inr (written acc (without i (queued ls)) ls)"
  by (simp add: removeFromQueue_eq written_def without_def)

lemma incrementRetryCount_written:
  "incrementRetryCount acc i ls = Inr (written acc (bumped i (queued ls)) ls)"
  unfolding incrementRetryCount_eq written_def bumped_def retried_def by simp

lemma queued_written:
  "queued (written acc operations ls) = (if acc (with_queue operations ls) then operations else queued ls)"
  by (simp add: written_def)

lemma saveDataInternal_cases:
  "saveDataInternal env now c d s =
     (if user s = None \<or> \<not> db s then (Inl (Error ''Cannot save: No database connection or user''), s)
      else if succeeds env (requests s)
      then (Inr (),
            s\<lparr>requests := requests s + 1,
               remote := (remote s)
                 (the (user s) := set_doc c \<lparr>items = Some d, updatedAt = now\<rparr> (remote s (the (user s)))),
               lastSynced := Some now, status := Synced\<rparr>)
      else (Inl FirebaseError, s\<lparr>requests := requests s + 1\<rparr>))"
  by (simp add: saveDataInternal_def Let_def split: option.splits)

lemma saveDataInternal_frame:
  assumes "saveDataInternal env now c d s = (r, s')"
  shows "storage s' = storage s" "isProcessingQueue s' = isProcessingQueue s"
    "db s' = db s" "user s' = user s" "toasts s' = toasts s"
    "pendingOperations s' = pendingOperations s"
    "requests s' \<le> requests s + 1"
  using assms by (auto simp: saveDataInternal_cases split: if_splits)

text \<open>One iteration, by cases.\<close>

lemma process_operation_cases:
  "process_operation env now op (s, n) =
     (if \<not> shouldRetry op then
        (Inr (), s\<lparr>storage := written (accepts env) (without (op_id op) (queued (storage s))) (storage s)\<rparr>, n)
      else if \<not> replayable op then (Inr (), s, n)
      else
        (case saveDataInternal env now (the (collection op)) (data op) s of
           (Inr u, s1) \<Rightarrow>
             (Inr (), s1\<lparr>storage := written (accepts env) (without (op_id op) (queued (storage s1))) (storage s1)\<rparr>, n + 1)
         | (Inl e, s1) \<Rightarrow>
             (Inr (), s1\<lparr>storage := written (accepts env) (bumped (op_id op) (queued (storage s1))) (storage s1)\<rparr>, n)))"
  by (auto simp: process_operation_def replay_def replayable_def removeFromQueue_written
      incrementRetryCount_written split: option.splits prod.splits sum.splits)

lemma process_operation_frame:
  assumes "process_operation env now op (s, n) = (r, s', n')"
  shows "r = Inr ()" "isProcessingQueue s' = isProcessingQueue s"
    "db s' = db s" "user s' = user s" "toasts s' = toasts s"
    "pendingOperations s' = pendingOperations s"
    "requests s' = requests s + (if shouldRetry op \<and> replayable op \<and> db s \<and> user s \<noteq> None then 1 else 0)"
  using assms
  by (auto simp: process_operation_cases saveDataInternal_cases split: if_splits)

lemma drain_frame:
  assumes "drain env now ops (s, n) = (r, s', n')"
  shows "r = Inr () \<and> isProcessingQueue s' = isProcessingQueue s \<and>
    db s' = db s \<and> user s' = user s \<and> toasts s' = toasts s \<and>
    pendingOperations s' = pendingOperations s \<and>
    requests s' = requests s +
      (if db s \<and> user s \<noteq> None then length (filter (\<lambda>op. shouldRetry op \<and> replayable op) ops) else 0)"
  using assms
proof (induction ops arbitrary: s n)
  case Nil
  then show ?case by simp
next
  case (Cons op ops)
  obtain r1 s1 n1 where step: "process_operation env now op (s, n) = (r1, s1, n1)"
    by (cases "process_operation env now op (s, n)") auto
  note f = process_operation_frame [OF step]
  from Cons.prems have "drain env now ops (s1, n1) = (r, s', n')"
    by (simp add: step f(1))
  from Cons.IH [OF this] show ?case
    by (auto simp: f)
qed


lemma processQueue_unfold:
  "processQueue env now s =
     (if \<not> db s \<or> user s = None \<or> isProcessingQueue s then (Inr (), s)
      else
        (case getQueuedOperations (storage s) of
           Inl e \<Rightarrow> (Inl e, s)
         | Inr operations \<Rightarrow>
             if length operations = 0 then (Inr (), s)
             else
               (case drain env now operations (s\<lparr>isProcessingQueue := True\<rparr>, 0) of
                  (Inl e, s1, successCount) \<Rightarrow> (Inl e, s1)
                | (Inr u, s1, successCount) \<Rightarrow>
                    (case getQueuedOperations (storage s1) of
                       Inl e \<Rightarrow> (Inl e, s1)
                     | Inr left \<Rightarrow>
                         (let s2 = s1\<lparr>pendingOperations := length left, isProcessingQueue := False\<rparr>
                          in if successCount > 0
                             then (Inr (), notify Default ''Sync complete'' s2)
                             else (Inr (), s2))))))"
  by (simp add: processQueue_def processQueue_run_def Let_def split: sum.splits prod.splits)

lemma processQueue_noop:
  "\<not> db s \<or> user s = None \<or> isProcessingQueue s \<or> queued (storage s) = [] \<Longrightarrow>
   processQueue env now s = (Inr (), s)"
  by (auto simp: processQueue_unfold getQueuedOperations_queued)

lemma suspensions_noop:
  "\<not> db s \<or> user s = None \<or> isProcessingQueue s \<or> queued (storage s) = [] \<Longrightarrow>
   suspensions env now s = []"
  by (auto simp: suspensions_def processQueue_run_def getQueuedOperations_queued)

lemma processQueue_runs:
  assumes "db s" "user s \<noteq> None" "\<not> isProcessingQueue s" "queued (storage s) \<noteq> []"
  shows "\<exists>s' n. drain env now (queued (storage s)) (s\<lparr>isProcessingQueue := True\<rparr>, 0) = (Inr (), s', n) \<and>
     processQueue env now s =
       (Inr (),
        if n > 0
        then notify Default ''Sync complete''
               (s'\<lparr>pendingOperations := length (queued (storage s')), isProcessingQueue := False\<rparr>)
        else s'\<lparr>pendingOperations := length (queued (storage s')), isProcessingQueue := False\<rparr>)"
proof -
  obtain r s' n where d: "drain env now (queued (storage s)) (s\<lparr>isProcessingQueue := True\<rparr>, 0) = (r, s', n)"
    by (metis prod_cases3)
  from drain_frame [OF d] have r: "r = Inr ()" by simp
  from assms(2) obtain uid where "user s = Some uid" by auto
  then show ?thesis
    using assms(1,3,4) by (simp add: processQueue_unfold getQueuedOperations_queued d r Let_def)
qed

lemma suspensions_runs:
  assumes "db s" "user s \<noteq> None" "\<not> isProcessingQueue s" "queued (storage s) \<noteq> []"
  shows "suspensions env now s = awaits env now (queued (storage s)) (s\<lparr>isProcessingQueue := True\<rparr>, 0)"
proof -
  from assms(2) obtain uid where "user s = Some uid" by auto
  then show ?thesis
    using assms(1,3,4)
    by (simp add: suspensions_def processQueue_run_def getQueuedOperations_queued Let_def
        split: sum.splits prod.splits)
qed

lemma awaits_flag:
  "t \<in> set (awaits env now ops (s, n)) \<Longrightarrow> isProcessingQueue t = isProcessingQueue s"
proof (induction ops arbitrary: s n)
  case Nil
  then show ?case by simp
next
  case (Cons op ops)
  obtain r1 s1 n1 where step: "process_operation env now op (s, n) = (r1, s1, n1)"
    by (cases "process_operation env now op (s, n)") auto
  note f = process_operation_frame [OF step]
  from Cons.prems consider "t = s" | "t \<in> set (awaits env now ops (s1, n1))"
    by (auto simp: step f(1) split: if_splits)
  then show ?case
  proof cases
    case 1
    then show ?thesis by simp
  next
    case 2
    from Cons.IH [OF this] show ?thesis by (simp add: f)
  qed
qed

lemma length_awaits: "length (awaits env now ops (s, n)) = attempts ops"
proof (induction ops arbitrary: s n)
  case Nil
  then show ?case by (simp add: attempts_def)
next
  case (Cons op ops)
  obtain r1 s1 n1 where step: "process_operation env now op (s, n) = (r1, s1, n1)"
    by (cases "process_operation env now op (s, n)") auto
  note f = process_operation_frame [OF step]
  from Cons.IH [of s1 n1] show ?case
    by (simp add: step f(1) attempts_def replayable_def)
qed

lemma suspensions_flag: "t \<in> set (suspensions env now s) \<Longrightarrow> isProcessingQueue t"
proof (cases "\<not> db s \<or> user s = None \<or> isProcessingQueue s \<or> queued (storage s) = []")
  case True
  assume "t \<in> set (suspensions env now s)"
  with suspensions_noop [OF True, of env now] show ?thesis by simp
next
  case False
  assume t: "t \<in> set (suspensions env now s)"
  from False have g: "db s" "user s \<noteq> None" "\<not> isProcessingQueue s" "queued (storage s) \<noteq> []"
    by auto
  from t awaits_flag [of t env now "queued (storage s)" "s\<lparr>isProcessingQueue := True\<rparr>" 0]
  show ?thesis
    by (simp add: suspensions_runs [OF g])
qed

section \<open>Claims about the drain\<close>

text \<open>
  C5. A call of \<open>processQueue\<close> with no database handle, no user, a drain in flight
  (\<open>isProcessingQueue\<close> set) or an empty queue returns at once: it never suspends, makes no
  remote request and changes neither the queue nor anything else. A call that starts a
  drain raises \<open>isProcessingQueue\<close> before its loop: in every state in which it is suspended
  at an \<open>await\<close>, the flag is set, so a call of \<open>processQueue\<close> made then is such a no-op. The
  call suspends once for each replay it attempts, runs to its end and clears the flag.
\<close>

theorem processQueue_one_drain_at_a_time:
  "(\<not> db s \<or> user s = None \<or> isProcessingQueue s \<or> queued (storage s) = [] \<longrightarrow>
      processQueue env now s = (Inr (), s) \<and> suspensions env now s = []) \<and>
   (\<forall>t\<in>set (suspensions env now s).
      isProcessingQueue t \<and> processQueue env2 now2 t = (Inr (), t)) \<and>
   (db s \<and> user s \<noteq> None \<and> \<not> isProcessingQueue s \<and> queued (storage s) \<noteq> [] \<longrightarrow>
      length (suspensions env now s) = attempts (queued (storage s)) \<and>
      (\<exists>s'. processQueue env now s = (Inr (), s') \<and> \<not> isProcessingQueue s' \<and>
         requests s' = requests s + attempts (queued (storage s))))"
proof -
  have a: "\<not> db s \<or> user s = None \<or> isProcessingQueue s \<or> queued (storage s) = [] \<longrightarrow>
      processQueue env now s = (Inr (), s) \<and> suspensions env now s = []"
    using processQueue_noop suspensions_noop by blast
  have b: "isProcessingQueue t \<and> processQueue env2 now2 t = (Inr (), t)"
    if "t \<in> set (suspensions env now s)" for t
    using suspensions_flag [OF that] by (simp add: processQueue_noop)
  have c: "length (suspensions env now s) = attempts (queued (storage s)) \<and>
      (\<exists>s'. processQueue env now s = (Inr (), s') \<and> \<not> isProcessingQueue s' \<and>
         requests s' = requests s + attempts (queued (storage s)))"
    if g: "db s" "user s \<noteq> None" "\<not> isProcessingQueue s" "queued (storage s) \<noteq> []"
  proof -
    from processQueue_runs [OF g, of env now] obtain s1 n where
      d: "drain env now (queued (storage s)) (s\<lparr>isProcessingQueue := True\<rparr>, 0) = (Inr (), s1, n)" and
      p: "processQueue env now s =
        (Inr (),
         if n > 0
         then notify Default ''Sync complete''
                (s1\<lparr>pendingOperations := length (queued (storage s1)), isProcessingQueue := False\<rparr>)
         else s1\<lparr>pendingOperations := length (queued (storage s1)), isProcessingQueue := False\<rparr>)"
      by blast
    from drain_frame [OF d] g
    have "requests s1 = requests s + attempts (queued (storage s))"
      by (simp add: attempts_def)
    then show ?thesis
      by (auto simp: p notify_def suspensions_runs [OF g] length_awaits)
  qed
  from a b c show ?thesis by blast
qed

theorem processQueue_one_drain_at_a_time_witness:
  "isProcessingQueue ((example_state [example_op ''a'' 0])\<lparr>isProcessingQueue := True\<rparr>) \<and>
   processQueue online_env 0 ((example_state [example_op ''a'' 0])\<lparr>isProcessingQueue := True\<rparr>)
     = (Inr (), (example_state [example_op ''a'' 0])\<lparr>isProcessingQueue := True\<rparr>) \<and>
   db (example_state [example_op ''a'' 0]) \<and>
   user (example_state [example_op ''a'' 0]) \<noteq> None \<and>
   \<not> isProcessingQueue (example_state [example_op ''a'' 0]) \<and>
   queued (storage (example_state [example_op ''a'' 0])) \<noteq> [] \<and>
   suspensions online_env 0 (example_state [example_op ''a'' 0])
     = [(example_state [example_op ''a'' 0])\<lparr>isProcessingQueue := True\<rparr>] \<and>
   (\<exists>s'. processQueue online_env 0 (example_state [example_op ''a'' 0]) = (Inr (), s') \<and>
      \<not> isProcessingQueue s' \<and> requests s' = 1)"
proof -
  let ?s = "example_state [example_op ''a'' 0]"
  let ?t = "?s\<lparr>isProcessingQueue := True\<rparr>"
  have flagged: "isProcessingQueue ?t"
    by simp
  have guards: "db ?s" "user ?s \<noteq> None" "\<not> isProcessingQueue ?s" "queued (storage ?s) \<noteq> []"
    by (simp_all add: example_state_def)
  have q: "queued (storage ?s) = [example_op ''a'' 0]" and r: "requests ?s = 0"
    by (simp_all add: example_state_def)
  have one: "attempts [example_op ''a'' 0] = 1"
    by (simp add: attempts_def shouldRetry_def replayable_def example_op_def maxRetries_def)
  have listed: "suspensions online_env 0 ?s = [?t]"
    unfolding suspensions_runs [OF guards] q
    by (simp add: shouldRetry_def example_op_def maxRetries_def split: prod.splits sum.splits)
  note t = processQueue_one_drain_at_a_time [of ?s online_env 0 online_env 0]
  from t have "\<forall>t\<in>set (suspensions online_env 0 ?s).
      isProcessingQueue t \<and> processQueue online_env 0 t = (Inr (), t)"
    by blast
  then have noop: "processQueue online_env 0 ?t = (Inr (), ?t)"
    unfolding listed by simp
  from t guards
  have "\<exists>s'. processQueue online_env 0 ?s = (Inr (), s') \<and> \<not> isProcessingQueue s' \<and>
      requests s' = requests ?s + attempts (queued (storage ?s))"
    by blast
  then have runs: "\<exists>s'. processQueue online_env 0 ?s = (Inr (), s') \<and> \<not> isProcessingQueue s' \<and>
      requests s' = 1"
    unfolding q r one by simp
  from flagged noop guards listed runs show ?thesis by blast
qed

lemma in_without: "op \<in> set q \<Longrightarrow> op_id op \<noteq> i \<Longrightarrow> op \<in> set (without i q)"
  by (simp add: without_def)

lemma in_bumped: "op \<in> set q \<Longrightarrow> op_id op \<noteq> i \<Longrightarrow> op \<in> set (bumped i q)"
  by (force simp: bumped_def)

lemma process_operation_keeps:
  assumes "op \<in> set (queued (storage s))"
    and "op' = op \<or> op_id op' \<noteq> op_id op"
    and "shouldRetry op" "\<not> replayable op"
    and "process_operation env now op' (s, n) = (r, s', n')"
  shows "op \<in> set (queued (storage s'))"
proof (cases "op' = op")
  case True
  with assms show ?thesis by (simp add: process_operation_cases)
next
  case False
  with assms(2) have ne: "op_id op \<noteq> op_id op'" by auto
  obtain r1 s1 where sv: "saveDataInternal env now (the (collection op')) (data op') s = (r1, s1)"
    by (cases "saveDataInternal env now (the (collection op')) (data op') s") auto
  have st: "storage s1 = storage s"
    using saveDataInternal_frame(1) [OF sv] .
  show ?thesis
    using assms(1,5) ne
    by (auto simp: process_operation_cases sv st queued_written in_without in_bumped
        split: if_splits sum.splits)
qed

lemma drain_keeps:
  assumes "op \<in> set (queued (storage s))"
    and "\<forall>x\<in>set ops. op_id x = op_id op \<longrightarrow> x = op"
    and "shouldRetry op" "\<not> replayable op"
    and "drain env now ops (s, n) = (r, s', n')"
  shows "op \<in> set (queued (storage s'))"
  using assms(1,2,5)
proof (induction ops arbitrary: s n)
  case Nil
  then show ?case by simp
next
  case (Cons x ops)
  obtain r1 s1 n1 where step: "process_operation env now x (s, n) = (r1, s1, n1)"
    by (cases "process_operation env now x (s, n)") auto
  have r1: "r1 = Inr ()"
    using process_operation_frame(1) [OF step] .
  have "x = op \<or> op_id x \<noteq> op_id op"
    using Cons.prems(2) by auto
  from process_operation_keeps [OF Cons.prems(1) this assms(3,4) step]
  have kept: "op \<in> set (queued (storage s1))" .
  have rest: "\<forall>x\<in>set ops. op_id x = op_id op \<longrightarrow> x = op"
    using Cons.prems(2) by simp
  have "drain env now ops (s1, n1) = (r, s', n')"
    using Cons.prems(3) by (simp add: step r1)
  from Cons.IH [OF kept rest this] show ?case .
qed

text \<open>
  C10. Let a queued operation have a kind other than \<open>save\<close>, or no collection name (absent or
  empty), and a retry count below \<open>maxRetries\<close>, and let no other queued operation carry its
  id. Then a call of \<open>processQueue\<close> returns normally and the operation is in the queue
  afterwards, as it was: it is not removed and its retry count is not incremented. It is not
  attempted either: the remote requests of the drain are at most one for each queued
  operation that is replayable and within its retry budget, and it is not one of these.
\<close>

theorem processQueue_leaves_unreplayable_operations:
  assumes "op \<in> set (queued (storage s))"
    and "op_type op \<noteq> Save \<or> \<not> truthy_string (collection op)"
    and "retryCount op < maxRetries"
    and "\<forall>x\<in>set (queued (storage s)). op_id x = op_id op \<longrightarrow> x = op"
  shows "\<exists>s'. processQueue env now s = (Inr (), s') \<and>
           op \<in> set (queued (storage s')) \<and>
           requests s' \<le> requests s + attempts (queued (storage s)) \<and>
           op \<notin> set (filter (\<lambda>x. shouldRetry x \<and> replayable x) (queued (storage s)))"
proof -
  have sr: "shouldRetry op" using assms(3) by (simp add: shouldRetry_def)
  have nr: "\<not> replayable op" using assms(2) by (auto simp: replayable_def)
  show ?thesis
  proof (cases "\<not> db s \<or> user s = None \<or> isProcessingQueue s \<or> queued (storage s) = []")
    case True
    then show ?thesis using assms(1) nr by (simp add: processQueue_noop)
  next
    case False
    then have g: "db s" "user s \<noteq> None" "\<not> isProcessingQueue s" "queued (storage s) \<noteq> []"
      by auto
    from processQueue_runs [OF g, of env now] obtain s1 n where
      d: "drain env now (queued (storage s)) (s\<lparr>isProcessingQueue := True\<rparr>, 0) = (Inr (), s1, n)" and
      p: "processQueue env now s =
        (Inr (),
         if n > 0
         then notify Default ''Sync complete''
                (s1\<lparr>pendingOperations := length (queued (storage s1)), isProcessingQueue := False\<rparr>)
         else s1\<lparr>pendingOperations := length (queued (storage s1)), isProcessingQueue := False\<rparr>)"
      by blast
    have "op \<in> set (queued (storage (s\<lparr>isProcessingQueue := True\<rparr>)))"
      using assms(1) by simp
    from drain_keeps [OF this assms(4) sr nr d]
    have kept: "op \<in> set (queued (storage s1))" .
    from drain_frame [OF d] g
    have "requests s1 = requests s + attempts (queued (storage s))"
      by (simp add: attempts_def)
    then show ?thesis
      using kept p nr by (auto simp: notify_def)
  qed
qed


theorem processQueue_leaves_unreplayable_operations_witness:
  "example_sync_op \<in> set (queued (storage (example_state [example_sync_op, example_op ''a'' 0]))) \<and>
   op_type example_sync_op \<noteq> Save \<and>
   retryCount example_sync_op < maxRetries \<and>
   (\<exists>s'. processQueue online_env 0 (example_state [example_sync_op, example_op ''a'' 0]) = (Inr (), s') \<and>
      example_sync_op \<in> set (queued (storage s')))"
proof -
  let ?s = "example_state [example_sync_op, example_op ''a'' 0]"
  have q: "queued (storage ?s) = [example_sync_op, example_op ''a'' 0]"
    by (simp add: example_state_def)
  have member: "example_sync_op \<in> set (queued (storage ?s))"
    by (simp add: q)
  have kind: "op_type example_sync_op \<noteq> Save"
    by (simp add: example_sync_op_def)
  have budget: "retryCount example_sync_op < maxRetries"
    by (simp add: example_sync_op_def maxRetries_def)
  have unique: "\<forall>x\<in>set (queued (storage ?s)). op_id x = op_id example_sync_op \<longrightarrow> x = example_sync_op"
    unfolding q by (simp add: example_sync_op_def example_op_def)
  from processQueue_leaves_unreplayable_operations
    [OF member disjI1 [OF kind] budget unique, of online_env 0]
  have "\<exists>s'. processQueue online_env 0 ?s = (Inr (), s') \<and> example_sync_op \<in> set (queued (storage s'))"
    by blast
  with member kind budget show ?thesis by blast
qed








lemma op_id_retried [simp]: "op_id (retried op) = op_id op"
  by (simp add: retried_def)



lemma drained_spec_append:
  "drained_spec ok n (pre @ rest) = drained_spec ok n pre @ drained_spec ok (n + attempts pre) rest"
  by (induction pre arbitrary: n) (auto simp: attempts_def shouldRetry_def)

lemma drained_spec_ids: "op_id ` set (drained_spec ok n q) \<subseteq> op_id ` set q"
  by (induction q arbitrary: n) auto

lemma drained_spec_gone:
  assumes "distinct (map op_id (pre @ op # post))"
    and "drained_spec ok n (op # post) = drained_spec ok m post"
  shows "op_id op \<notin> op_id ` set (drained_spec ok k pre @ drained_spec ok n (op # post))"
proof -
  from assms(1) have "op_id op \<notin> op_id ` set pre" "op_id op \<notin> op_id ` set post"
    by auto
  with drained_spec_ids [of ok k pre] drained_spec_ids [of ok m post] show ?thesis
    unfolding assms(2) by auto
qed























section \<open>Claims about the sync provider\<close>


















declare restore_docs.simps(2) [simp del]












lemma sync_resolves: "fst (sync env now s) = Inr ()"
  by (simp add: sync_def Let_def split: option.splits sum.splits)

text \<open>
  C2. The claim is that every failure of \<open>sync\<close>, \<open>restore\<close> and \<open>resetAllData\<close> reaches the
  caller as a rejected promise. \<open>restore\<close> and \<open>resetAllData\<close> do reject, without a database
  handle and when a remote request fails. \<open>sync\<close> does not: its promise resolves in every
  state and environment. Without a database handle, and when its batch commit fails, it
  sets the status to offline, shows "Sync failed" and returns normally.
\<close>

theorem sync_swallows_failures:
  "fst (sync env now s) = Inr () \<and>
   sync online_env 0 offline_state =
     (Inr (), offline_state\<lparr>status := Offline,
        toasts := [\<lparr>variant = Destructive, title = ''Sync failed''\<rparr>]\<rparr>) \<and>
   sync failing_env 0 (example_state []) =
     (Inr (), (example_state [])\<lparr>status := Offline, requests := 1,
        toasts := [\<lparr>variant = Destructive, title = ''Sync failed''\<rparr>]\<rparr>) \<and>
   fst (restore online_env 0 offline_state) = Inl (Error ''Not connected to cloud'') \<and>
   fst (restore failing_env 0 (example_state [])) = Inl FirebaseError \<and>
   fst (resetAllData online_env offline_state) = Inl (Error ''Cannot reset: No database connection or user'') \<and>
   fst (resetAllData failing_env (example_state [])) = Inl FirebaseError \<and>
   fst (resetAllData flaky_env two_partitions) = Inl FirebaseError"
proof -
  have a: "sync online_env 0 offline_state =
     (Inr (), offline_state\<lparr>status := Offline,
        toasts := [\<lparr>variant = Destructive, title = ''Sync failed''\<rparr>]\<rparr>)"
    by (simp add: sync_def offline_state_def example_state_def notify_def)
  have batch: "sync_batch 0 (storage (example_state [])) STORAGE_KEYS = Inr []"
    by (simp add: STORAGE_KEYS_def example_state_def example_storage_def)
  have b: "sync failing_env 0 (example_state []) =
     (Inr (), (example_state [])\<lparr>status := Offline, requests := 1,
        toasts := [\<lparr>variant = Destructive, title = ''Sync failed''\<rparr>]\<rparr>)"
    using batch
    by (simp add: sync_def example_state_def notify_def failing_env_def never_def Let_def)
  have c: "fst (restore online_env 0 offline_state) = Inl (Error ''Not connected to cloud'')"
    by (simp add: restore_def offline_state_def example_state_def)
  have d: "fst (restore failing_env 0 (example_state [])) = Inl FirebaseError"
    by (simp add: restore_def example_state_def failing_env_def never_def Let_def)
  have e: "fst (resetAllData online_env offline_state) = Inl (Error ''Cannot reset: No database connection or user'')"
    by (simp add: resetAllData_def offline_state_def example_state_def)
  have f: "fst (resetAllData failing_env (example_state [])) = Inl FirebaseError"
    by (simp add: resetAllData_def example_state_def failing_env_def never_def Let_def)
  have g: "fst (resetAllData flaky_env two_partitions) = Inl FirebaseError"
    by (simp add: resetAllData_def two_partitions_def example_state_def flaky_env_def
        first_only_def Let_def)
  from sync_resolves a b c d e f g show ?thesis by blast
qed


end
